theory Spec2Isabelle
  imports Complex_Main "HOL-Library.Sublist" "HOL-Library.Multiset" "HOL-Library.Log_Nat"
begin

section \<open>Strings and the built-ins the services call\<close>

text \<open>
  A JavaScript string is modelled as a \<^typ>\<open>string\<close>: one \<^typ>\<open>char\<close> per code unit,
  for code units below 256. A finite JavaScript number is the rational it stands for.
  The numbers that are only carried from the predictor to the store (confidence,
  probabilities) are never computed with; where the code divides and multiplies, the
  model rounds as binary64 does (\<open>binary64\<close> below).
\<close>

text \<open>\<^verbatim>\<open>Array.prototype.join(sep)\<close>.\<close>

fun join :: "string \<Rightarrow> string list \<Rightarrow> string" where
  "join sep [] = []"
| "join sep [x] = x"
| "join sep (x # y # ys) = x @ sep @ join sep (y # ys)"


section \<open>The sequence validator\<close>

text \<open>
  The repository holds two copies of \<^verbatim>\<open>prediction.service.ts\<close>. The first is the file
  \<^verbatim>\<open>peptide-toxicity-prediction(3)/backend/src/prediction/prediction.service.ts\<close>; its
  functions keep their names here. The second is the copy of the same service held
  in the file \<^verbatim>\<open>QUICK_START.md\<close> (lines 344 to 505 there); its functions carry the suffix
  \<open>_B\<close>. The two differ in the validator, in the normalisation of the input and in
  what a batch writes to the store.
\<close>

definition validAminoAcids :: string where
  "validAminoAcids = ''ACDEFGHIKLMNPQRSTVWY''"

text \<open>
  First copy, lines 132 to 135:
  \<^verbatim>\<open>sequence.split("").every((aa) => validAminoAcids.includes(aa))\<close>.
  \<^verbatim>\<open>every\<close> on the empty array is true.
\<close>

definition isValidPeptideSequence :: "string \<Rightarrow> bool" where
  "isValidPeptideSequence sequence = list_all (\<lambda>aa. aa \<in> set validAminoAcids) sequence"

text \<open>
  Second copy:
  \<^verbatim>\<open>if (!sequence) return false; return /^[ACDEFGHIKLMNPQRSTVWY]+$/.test(sequence)\<close>.
  The regular expression asks for one or more characters of the class, from the start
  of the string to its end.
\<close>

definition isValidPeptideSequence_B :: "string \<Rightarrow> bool" where
  "isValidPeptideSequence_B sequence =
     (if sequence = [] then False
      else sequence \<noteq> [] \<and> list_all (\<lambda>c. c \<in> set ''ACDEFGHIKLMNPQRSTVWY'') sequence)"

text \<open>
  Second copy, \<^verbatim>\<open>sanitizeSequence\<close>:
  \<^verbatim>\<open>(sequence || "").trim().toUpperCase().replace(/\s+/g, "")\<close>.
  White space, for \<^verbatim>\<open>trim\<close> and for \<^verbatim>\<open>\s\<close> alike, is TAB, LF, VT, FF, CR, SPACE and
  NO-BREAK SPACE among the code units below 256.
\<close>

definition isWhiteSpace :: "char \<Rightarrow> bool" where
  "isWhiteSpace c = (of_char c \<in> {9, 10, 11, 12, 13, 32, 160 :: nat})"

definition trim :: "string \<Rightarrow> string" where
  "trim s = rev (dropWhile isWhiteSpace (rev (dropWhile isWhiteSpace s)))"

text \<open>
  \<^verbatim>\<open>toUpperCase\<close> on code units below 256: the ASCII letters and the Latin-1 letters
  (\<open>0xE0\<close> to \<open>0xFE\<close> without the division sign \<open>0xF7\<close>) move down by 32, and the sharp s
  (\<open>0xDF\<close>) becomes \<^verbatim>\<open>SS\<close>. The upper-case forms of \<open>0xB5\<close> and \<open>0xFF\<close> lie above 255; the
  model leaves these two characters as they are (neither form is an amino-acid
  letter).
\<close>

definition toUpperCase_chr :: "char \<Rightarrow> string" where
  "toUpperCase_chr c =
     (let n = (of_char c :: nat) in
      if 97 \<le> n \<and> n \<le> 122 then [char_of (n - 32)]
      else if n = 223 then ''SS''
      else if 224 \<le> n \<and> n \<le> 254 \<and> n \<noteq> 247 then [char_of (n - 32)]
      else [c])"

definition toUpperCase :: "string \<Rightarrow> string" where
  "toUpperCase s = concat (map toUpperCase_chr s)"

definition sanitizeSequence :: "string \<Rightarrow> string" where
  "sanitizeSequence sequence = filter (\<lambda>c. \<not> isWhiteSpace c) (toUpperCase (trim sequence))"

section \<open>Numbers\<close>

text \<open>
  A JavaScript number is an IEEE 754 binary64 value, and every arithmetic operation
  returns the exact result rounded to the nearest such value, ties to the even
  significand. \<open>binade x\<close> is the exponent of the power of two at or below a positive
  \<open>x\<close>; a binary64 value in that binade is a multiple of \<open>2 powi (binade x - 52)\<close>. The
  exponent range is not modelled (no overflow to \<^verbatim>\<open>Infinity\<close>, no subnormal numbers): the
  values computed here, for a string of fewer than \<open>2 ^ 53\<close> characters, are zero or lie
  between \<open>2 powi (- 53)\<close> and 100.
\<close>

definition binade :: "rat \<Rightarrow> int" where
  "binade x =
     (case quotient_of x of (p, q) \<Rightarrow>
        (let b = bitlen p - bitlen q in if 2 powi b \<le> x then b else b - 1))"



section \<open>The analysis service\<close>





section \<open>The database service\<close>

text \<open>
  \<^verbatim>\<open>database.service.ts\<close> (the source held in the file \<^verbatim>\<open>QUICK_START.md\<close>, lines 506
  to 635). The table \<^verbatim>\<open>predictions\<close> is the list of its rows in insertion order. The column
  \<^verbatim>\<open>metadata\<close> is never written and is left out; the table \<^verbatim>\<open>batch_predictions\<close> is
  created and never used. \<^verbatim>\<open>id INTEGER PRIMARY KEY AUTOINCREMENT\<close>: a new row gets an
  id one above the largest id handed out so far, which the engine keeps in its table
  \<^verbatim>\<open>sqlite_sequence\<close>. \<^verbatim>\<open>created_at\<close> is the engine's clock at the insertion, in
  seconds.
\<close>

record prediction_row =
  row_id :: nat
  row_sequence :: string
  row_model :: string
  row_prediction :: string
  row_confidence :: rat
  row_toxic_probability :: rat
  row_non_toxic_probability :: rat
  row_created_at :: nat

record database =
  predictions_table :: "prediction_row list"
  sqlite_sequence :: nat

definition empty_database :: database where
  "empty_database = \<lparr>predictions_table = [], sqlite_sequence = 0\<rparr>"

text \<open>The argument of \<^verbatim>\<open>addPrediction\<close>.\<close>

record new_prediction =
  data_sequence :: string
  data_model :: string
  data_prediction :: string
  data_confidence :: rat
  data_toxicProbability :: rat
  data_nonToxicProbability :: rat

datatype error =
    BadRequestException string
  | Error string
  | TypeError
  | SqliteError

text \<open>
  \<^verbatim>\<open>addPrediction\<close>: one \<^verbatim>\<open>INSERT\<close>. Whether the engine reports an error, and its
  clock, come from outside: \<open>fails\<close> and \<open>now\<close>. On an error the promise is rejected
  and no row is written; otherwise it resolves to \<^verbatim>\<open>this.lastID\<close>.
\<close>

definition addPrediction ::
  "bool \<Rightarrow> nat \<Rightarrow> new_prediction \<Rightarrow> database \<Rightarrow> (error + nat) \<times> database" where
  "addPrediction fails now data db =
     (if fails then (Inl SqliteError, db)
      else
        (let lastID = Suc (sqlite_sequence db) in
         (Inr lastID,
          db\<lparr>predictions_table := predictions_table db @
                [\<lparr>row_id = lastID,
                  row_sequence = data_sequence data,
                  row_model = data_model data,
                  row_prediction = data_prediction data,
                  row_confidence = data_confidence data,
                  row_toxic_probability = data_toxicProbability data,
                  row_non_toxic_probability = data_nonToxicProbability data,
                  row_created_at = now\<rparr>],
             sqlite_sequence := lastID\<rparr>)))"

text \<open>
  \<^verbatim>\<open>ORDER BY key DESC\<close>: the rows by descending key. SQL leaves the order of rows with
  equal keys open; the model keeps them in table order (a stable sort).
\<close>

definition order_by_desc :: "('a \<Rightarrow> nat) \<Rightarrow> 'a list \<Rightarrow> 'a list" where
  "order_by_desc key rows = sort_key (\<lambda>r. - int (key r)) rows"

text \<open>
  \<^verbatim>\<open>SELECT * FROM predictions ORDER BY id DESC LIMIT ?\<close>, with \<^verbatim>\<open>limit = 20\<close> when the
  caller gives none. A limit is a row count, a natural number.
\<close>

definition getRecentPredictions :: "nat option \<Rightarrow> database \<Rightarrow> prediction_row list" where
  "getRecentPredictions limit db =
     take (case limit of None \<Rightarrow> 20 | Some n \<Rightarrow> n)
       (order_by_desc row_id (predictions_table db))"





text \<open>
  What every store that the services build satisfies (\<open>store_ok_empty\<close>,
  \<open>store_ok_addPrediction\<close> below): in insertion order the ids go strictly up, and none
  exceeds the counter.
\<close>

definition store_ok :: "database \<Rightarrow> bool" where
  "store_ok db =
     (sorted_wrt (\<lambda>a b. row_id a < row_id b) (predictions_table db)
      \<and> list_all (\<lambda>r. row_id r \<le> sqlite_sequence db) (predictions_table db))"



definition no_lower_case :: "string \<Rightarrow> bool" where
  "no_lower_case s = list_all (\<lambda>c. \<not> (97 \<le> (of_char c :: nat) \<and> (of_char c :: nat) \<le> 122)) s"

section \<open>The gateway to the predictor\<close>

text \<open>
  \<^verbatim>\<open>PythonBridgeService.predict\<close> (\<^verbatim>\<open>python-bridge.service.ts\<close>, lines 7 to 40). The child
  process is seen through what it does: the
  chunks it writes to its standard output and its standard error, in the order the
  \<^verbatim>\<open>data\<close> events arrive, and the code of its \<^verbatim>\<open>close\<close> event (\<open>None\<close> for the \<^verbatim>\<open>null\<close> of
  a process ended by a signal). A process that never closes leaves the promise
  pending; that is outside the model. \<^verbatim>\<open>JSON.parse\<close> is a parameter: \<open>None\<close> where it
  throws.
\<close>

datatype chunk = Stdout string | Stderr string

record process_run =
  chunks :: "chunk list"
  exit_code :: "int option"

text \<open>The two \<^verbatim>\<open>data\<close> handlers, on the pair \<^verbatim>\<open>(output, errorOutput)\<close>.\<close>

fun on_data :: "string \<times> string \<Rightarrow> chunk \<Rightarrow> string \<times> string" where
  "on_data (output, errorOutput) (Stdout d) = (output @ d, errorOutput)"
| "on_data (output, errorOutput) (Stderr d) = (output, errorOutput @ d)"

text \<open>The text a run writes to each of the two streams, all chunks together.\<close>

definition captured_stdout :: "chunk list \<Rightarrow> string" where
  "captured_stdout cs = concat (map (\<lambda>c. case c of Stdout d \<Rightarrow> d | Stderr d \<Rightarrow> []) cs)"

definition captured_stderr :: "chunk list \<Rightarrow> string" where
  "captured_stderr cs = concat (map (\<lambda>c. case c of Stdout d \<Rightarrow> [] | Stderr d \<Rightarrow> d) cs)"

text \<open>The \<^verbatim>\<open>close\<close> handler (lines 26 to 38).\<close>

fun on_close :: "(string \<Rightarrow> 'j option) \<Rightarrow> int option \<Rightarrow> string \<times> string \<Rightarrow> error + 'j" where
  "on_close parse code (output, errorOutput) =
     (if code \<noteq> Some 0 then Inl (Error (''Python script failed: '' @ errorOutput))
      else
        (case parse output of
           None \<Rightarrow> Inl (Error ''Failed to parse Python output'')
         | Some result \<Rightarrow> Inr result))"

definition settle :: "(string \<Rightarrow> 'j option) \<Rightarrow> process_run \<Rightarrow> error + 'j" where
  "settle parse run = on_close parse (exit_code run) (foldl on_data ([], []) (chunks run))"

text \<open>What the predictor sends for one sequence.\<close>

record probability =
  prob_toxic :: rat
  prob_non_toxic :: rat

record result =
  res_prediction :: string
  res_confidence :: rat
  res_probability :: probability

section \<open>The prediction service\<close>

record PredictSequenceDto =
  dto_sequence :: string
  dto_model :: "string option"

record BatchPredictDto =
  dto_sequences :: "string list"
  dto_batch_model :: "string option"

record single_prediction =
  sp_id :: string
  sp_sequence :: string
  sp_model :: string
  sp_result :: result
  sp_timestamp :: string

record batch_item =
  item_sequence :: string
  item_result :: "result option"

record batchPrediction =
  batch_id :: string
  batch_model :: string
  batch_predictions :: "batch_item list"
  total :: nat
  toxic :: nat
  nonToxic :: nat
  batch_timestamp :: string

text \<open>
  The state of the service: its map \<^verbatim>\<open>predictions\<close> (line 8), the database, and a log
  of the processes spawned so far, each with the sequences and the model name it was
  given.
\<close>

record service =
  predictions :: "string \<rightharpoonup> batchPrediction"
  database :: database
  spawned :: "(string list \<times> string) list"

text \<open>
  What the outside supplies during one request: the behaviour of the script for given
  sequences and model name; \<^verbatim>\<open>JSON.parse\<close> on outputs that are arrays of results (the
  shape the service casts to); the value of \<^verbatim>\<open>generateId()\<close> (time and a random
  number); the value of \<^verbatim>\<open>new Date().toISOString()\<close>; and, for the \<open>k\<close>-th \<^verbatim>\<open>INSERT\<close> that
  the request asks for (counted from 0), whether it fails, the engine's clock when it
  runs, and its rank among the insertions of the request: the engine runs them by
  ascending rank.
\<close>

record env =
  python3 :: "string list \<Rightarrow> string \<Rightarrow> process_run"
  JSON_parse :: "string \<Rightarrow> result list option"
  generateId :: string
  toISOString :: string
  insert_fails :: "nat \<Rightarrow> bool"
  CURRENT_TIMESTAMP :: "nat \<Rightarrow> nat"
  insert_rank :: "nat \<Rightarrow> nat"

text \<open>
  \<^verbatim>\<open>pythonBridge.predict(sequences, model)\<close>, with \<^verbatim>\<open>model = "ensemble"\<close> when the
  argument is undefined.
\<close>

definition pythonBridge_predict ::
  "env \<Rightarrow> string list \<Rightarrow> string option \<Rightarrow> service \<Rightarrow> (error + result list) \<times> service" where
  "pythonBridge_predict w sequences m s =
     (let name = (case m of None \<Rightarrow> ''ensemble'' | Some x \<Rightarrow> x) in
      (settle (JSON_parse w) (python3 w sequences name),
       s\<lparr>spawned := spawned s @ [(sequences, name)]\<rparr>))"

text \<open>\<^verbatim>\<open>model || "ensemble"\<close>: the empty string is falsy too.\<close>

definition model_or_ensemble :: "string option \<Rightarrow> string" where
  "model_or_ensemble m =
     (case m of None \<Rightarrow> ''ensemble'' | Some x \<Rightarrow> if x = [] then ''ensemble'' else x)"

definition new_prediction_of :: "string \<Rightarrow> string option \<Rightarrow> result \<Rightarrow> new_prediction" where
  "new_prediction_of seq m r =
     \<lparr>data_sequence = seq,
      data_model = model_or_ensemble m,
      data_prediction = res_prediction r,
      data_confidence = res_confidence r,
      data_toxicProbability = prob_toxic (res_probability r),
      data_nonToxicProbability = prob_non_toxic (res_probability r)\<rparr>"

text \<open>\<^verbatim>\<open>results[idx]\<close>: undefined beyond the end of the array.\<close>

definition nth_opt :: "'a list \<Rightarrow> nat \<Rightarrow> 'a option" where
  "nth_opt xs i = (if i < length xs then Some (xs ! i) else None)"

subsection \<open>First copy\<close>

text \<open>
  \<^verbatim>\<open>predictSingle\<close> (lines 15 to 46). When the predictor's array is empty, \<^verbatim>\<open>result[0]\<close>
  is undefined and reading \<^verbatim>\<open>result[0].prediction\<close> throws before the store is called.
\<close>

definition predictSingle ::
  "env \<Rightarrow> PredictSequenceDto \<Rightarrow> service \<Rightarrow> (error + single_prediction) \<times> service" where
  "predictSingle w dto s =
     (let seq = dto_sequence dto; m = dto_model dto in
      if \<not> isValidPeptideSequence seq
      then (Inl (BadRequestException
                  ''Invalid peptide sequence. Only standard amino acids are allowed.''), s)
      else
        (case pythonBridge_predict w [seq] m s of
           (Inl e, s1) \<Rightarrow> (Inl e, s1)
         | (Inr res, s1) \<Rightarrow>
             (case res of
                [] \<Rightarrow> (Inl TypeError, s1)
              | r0 # _ \<Rightarrow>
                  (case addPrediction (insert_fails w 0) (CURRENT_TIMESTAMP w 0)
                          (new_prediction_of seq m r0) (database s1) of
                     (Inl e, db) \<Rightarrow> (Inl e, s1\<lparr>database := db\<rparr>)
                   | (Inr _, db) \<Rightarrow>
                       (Inr \<lparr>sp_id = generateId w,
                             sp_sequence = seq,
                             sp_model = model_or_ensemble m,
                             sp_result = r0,
                             sp_timestamp = toISOString w\<rparr>,
                        s1\<lparr>database := db\<rparr>)))))"

text \<open>\<^verbatim>\<open>predictBatch\<close> (lines 48 to 84).\<close>

definition predictBatch ::
  "env \<Rightarrow> BatchPredictDto \<Rightarrow> service \<Rightarrow> (error + batchPrediction) \<times> service" where
  "predictBatch w dto s =
     (let sequences = dto_sequences dto; m = dto_batch_model dto;
          invalidSequences = filter (\<lambda>seq. \<not> isValidPeptideSequence seq) sequences in
      if length invalidSequences > 0
      then (Inl (BadRequestException
                  (''Invalid sequences found: '' @ join '', '' invalidSequences)), s)
      else
        (case pythonBridge_predict w sequences m s of
           (Inl e, s1) \<Rightarrow> (Inl e, s1)
         | (Inr results, s1) \<Rightarrow>
             (let batchId = generateId w;
                  items = map (\<lambda>(seq, idx). \<lparr>item_sequence = seq, item_result = nth_opt results idx\<rparr>)
                            (zip sequences [0 ..< length sequences]);
                  b = \<lparr>batch_id = batchId,
                       batch_model = model_or_ensemble m,
                       batch_predictions = items,
                       total = length sequences,
                       toxic = length (filter (\<lambda>r. res_prediction r = ''Toxic'') results),
                       nonToxic = length (filter (\<lambda>r. res_prediction r = ''Non-Toxic'') results),
                       batch_timestamp = toISOString w\<rparr>
              in (Inr b, s1\<lparr>predictions := (predictions s1)(batchId \<mapsto> b)\<rparr>))))"

text \<open>\<^verbatim>\<open>getPredictionById\<close> (lines 86 to 95); a stored batch is an object, so truthy.\<close>

definition getPredictionById :: "string \<Rightarrow> service \<Rightarrow> error + batchPrediction" where
  "getPredictionById i s =
     (case predictions s i of
        None \<Rightarrow> Inl (BadRequestException ''Prediction not found'')
      | Some b \<Rightarrow> Inr b)"

subsection \<open>Second copy\<close>

definition predictSingle_B ::
  "env \<Rightarrow> PredictSequenceDto \<Rightarrow> service \<Rightarrow> (error + single_prediction) \<times> service" where
  "predictSingle_B w dto s =
     (let m = dto_model dto; cleaned = sanitizeSequence (dto_sequence dto) in
      if \<not> isValidPeptideSequence_B cleaned
      then (Inl (BadRequestException
                  ''Invalid peptide sequence. Only standard amino acids are allowed.''), s)
      else
        (case pythonBridge_predict w [cleaned] m s of
           (Inl e, s1) \<Rightarrow> (Inl e, s1)
         | (Inr res, s1) \<Rightarrow>
             (case res of
                [] \<Rightarrow> (Inl TypeError, s1)
              | r0 # _ \<Rightarrow>
                  (case addPrediction (insert_fails w 0) (CURRENT_TIMESTAMP w 0)
                          (new_prediction_of cleaned m r0) (database s1) of
                     (Inl e, db) \<Rightarrow> (Inl e, s1\<lparr>database := db\<rparr>)
                   | (Inr _, db) \<Rightarrow>
                       (Inr \<lparr>sp_id = generateId w,
                             sp_sequence = cleaned,
                             sp_model = model_or_ensemble m,
                             sp_result = r0,
                             sp_timestamp = toISOString w\<rparr>,
                        s1\<lparr>database := db\<rparr>)))))"

text \<open>
  The batch of the second copy writes one row per item, \<^verbatim>\<open>Promise.all\<close> over
  \<^verbatim>\<open>predictions.map((p) => this.database.addPrediction({...}))\<close>. The callback of
  \<^verbatim>\<open>map\<close> reads \<^verbatim>\<open>p.result.prediction\<close> and throws at the first item whose result is
  undefined; the insertions asked for before that item still run. \<open>insert_args\<close> is
  the list of the arguments built up to that point.
\<close>

fun insert_args :: "string option \<Rightarrow> batch_item list \<Rightarrow> new_prediction list" where
  "insert_args m [] = []"
| "insert_args m (p # ps) =
     (case item_result p of
        None \<Rightarrow> []
      | Some r \<Rightarrow> new_prediction_of (item_sequence p) m r # insert_args m ps)"

text \<open>
  \<^verbatim>\<open>map\<close> asks for all the insertions at once, and the driver runs the statements of one
  connection in no fixed order. The order in which they run comes from outside:
  \<open>scheduled\<close> pairs each argument with its position in the request and arranges the
  pairs by ascending rank, so that every order of the insertions arises for some
  ranks. Each insertion runs on its own: one that fails leaves the others in place.
\<close>

definition scheduled :: "env \<Rightarrow> 'a list \<Rightarrow> (nat \<times> 'a) list" where
  "scheduled w ds = map (\<lambda>k. (k, ds ! k)) (sort_key (insert_rank w) [0 ..< length ds])"

fun run_inserts ::
  "env \<Rightarrow> (nat \<times> new_prediction) list \<Rightarrow> database \<Rightarrow> (error + nat) list \<times> database" where
  "run_inserts w [] db = ([], db)"
| "run_inserts w ((k, d) # jobs) db =
     (case addPrediction (insert_fails w k) (CURRENT_TIMESTAMP w k) d db of
        (r, db1) \<Rightarrow>
          (case run_inserts w jobs db1 of
             (rs, db2) \<Rightarrow> (r # rs, db2)))"

text \<open>
  \<^verbatim>\<open>Promise.all\<close> is rejected with the rejection that comes first in time; the outcomes
  are listed in the order in which the insertions ran.
\<close>

fun first_rejection :: "(error + nat) list \<Rightarrow> error option" where
  "first_rejection [] = None"
| "first_rejection (Inl e # rs) = Some e"
| "first_rejection (Inr _ # rs) = first_rejection rs"

definition predictBatch_B ::
  "env \<Rightarrow> BatchPredictDto \<Rightarrow> service \<Rightarrow> (error + batchPrediction) \<times> service" where
  "predictBatch_B w dto s =
     (let sequences = dto_sequences dto; m = dto_batch_model dto;
          cleanedSequences = map sanitizeSequence sequences;
          invalidSequences = filter (\<lambda>(seq, idx). \<not> isValidPeptideSequence_B seq)
                               (zip cleanedSequences [0 ..< length cleanedSequences]) in
      if length invalidSequences > 0
      then
        (let bad = map (\<lambda>(seq, idx). if sequences ! idx = [] then seq else sequences ! idx)
                     invalidSequences
         in (Inl (BadRequestException (''Invalid sequences found: '' @ join '', '' bad)), s))
      else
        (case pythonBridge_predict w cleanedSequences m s of
           (Inl e, s1) \<Rightarrow> (Inl e, s1)
         | (Inr results, s1) \<Rightarrow>
             (let batchId = generateId w;
                  items = map (\<lambda>(seq, idx). \<lparr>item_sequence = seq, item_result = nth_opt results idx\<rparr>)
                            (zip cleanedSequences [0 ..< length cleanedSequences]);
                  args = insert_args m items
              in
                (case run_inserts w (scheduled w args) (database s1) of
                   (outcomes, db) \<Rightarrow>
                     (let s2 = s1\<lparr>database := db\<rparr> in
                      if length args < length items then (Inl TypeError, s2)
                      else
                        (case first_rejection outcomes of
                           Some e \<Rightarrow> (Inl e, s2)
                         | None \<Rightarrow>
                             (let b = \<lparr>batch_id = batchId,
                                       batch_model = model_or_ensemble m,
                                       batch_predictions = items,
                                       total = length sequences,
                                       toxic = length (filter (\<lambda>r. res_prediction r = ''Toxic'') results),
                                       nonToxic = length (filter (\<lambda>r. res_prediction r = ''Non-Toxic'') results),
                                       batch_timestamp = toISOString w\<rparr>
                              in (Inr b, s2\<lparr>predictions := (predictions s2)(batchId \<mapsto> b)\<rparr>))))))))"

section \<open>A concrete request\<close>

text \<open>
  For the examples: a predictor that answers every call with one result labelled
  \<^verbatim>\<open>Toxic\<close>, a store that accepts every insertion, and a service that has just started.
\<close>

definition toxic_result :: result where
  "toxic_result =
     \<lparr>res_prediction = ''Toxic'', res_confidence = 9 / 10,
      res_probability = \<lparr>prob_toxic = 9 / 10, prob_non_toxic = 1 / 10\<rparr>\<rparr>"

definition example_env :: env where
  "example_env =
     \<lparr>python3 = (\<lambda>sequences name.
         \<lparr>chunks = [Stdout ''[{\"prediction\": \"Toxic\", \"confidence\": 0.9, \"probability\": {\"toxic\": 0.9, \"non_toxic\": 0.1}}]''],
          exit_code = Some 0\<rparr>),
      JSON_parse = (\<lambda>out.
         if out = ''[{\"prediction\": \"Toxic\", \"confidence\": 0.9, \"probability\": {\"toxic\": 0.9, \"non_toxic\": 0.1}}]''
         then Some [toxic_result] else None),
      generateId = ''pred_1700000000000_k3j9x2m1q'',
      toISOString = ''2023-11-14T22:13:20.000Z'',
      insert_fails = (\<lambda>k. False),
      CURRENT_TIMESTAMP = (\<lambda>k. 1700000000),
      insert_rank = (\<lambda>k. 5 - k)\<rparr>"

text \<open>
  A store after three insertions; the engine's clock was 200, then 300, then 100.
\<close>

definition example_database :: database where
  "example_database =
     snd (addPrediction False 100 (new_prediction_of ''MKLPQRSTVWY'' None toxic_result)
       (snd (addPrediction False 300 (new_prediction_of ''ACEFGHIK'' None toxic_result)
         (snd (addPrediction False 200 (new_prediction_of ''ACDEFGHIK'' None toxic_result)
            empty_database)))))"

definition empty_service :: service where
  "empty_service = \<lparr>predictions = Map.empty, database = empty_database, spawned = []\<rparr>"

section \<open>Properties\<close>

subsection \<open>The validator\<close>

lemma isValidPeptideSequence_iff:
  "isValidPeptideSequence s \<longleftrightarrow> set s \<subseteq> set validAminoAcids"
  by (auto simp: isValidPeptideSequence_def list_all_iff)

lemma isValidPeptideSequence_B_iff:
  "isValidPeptideSequence_B s \<longleftrightarrow> s \<noteq> [] \<and> set s \<subseteq> set validAminoAcids"
  unfolding isValidPeptideSequence_B_def validAminoAcids_def[symmetric] list_all_iff
  by auto

text \<open>
  C3: the validator returns true for a string if and only if the string is non-empty
  and each of its characters is one of the twenty letters; the empty string is
  rejected. The validator of the first copy does not reject the empty string: it
  returns true on it, and a batch whose one sequence is the empty string passes the
  validation and reaches the predictor. (On every non-empty string it is as the claim says, by
  \<open>isValidPeptideSequence_iff\<close>; the validator of the second copy is as the claim says on
  every string, by \<open>isValidPeptideSequence_B_iff\<close>.)
\<close>

theorem isValidPeptideSequence_empty:
  "isValidPeptideSequence [] = True
   \<and> spawned (snd (predictBatch w \<lparr>dto_sequences = [[]], dto_batch_model = None\<rparr> s))
       = spawned s @ [([[]], ''ensemble'')]"
  by (simp add: isValidPeptideSequence_def predictBatch_def pythonBridge_predict_def Let_def
      split: prod.splits sum.splits)

subsection \<open>Amino-acid composition\<close>








lemma binade_upper:
  assumes "0 < x"
  shows "x < 2 powi (binade x + 1)"
proof -
  obtain p q where pq: "quotient_of x = (p, q)" by (cases "quotient_of x")
  then have q: "0 < q" by (rule quotient_of_denom_pos)
  from pq have x: "x = of_int p / of_int q" by (rule quotient_of_div)
  with assms q have p: "0 < p" by (simp add: zero_less_divide_iff)
  let ?b = "bitlen p - bitlen q"
  show ?thesis
  proof (cases "2 powi ?b \<le> x")
    case False
    then show ?thesis by (simp add: binade_def pq Let_def)
  next
    case True
    from bitlen_bounds[OF p] have up: "p < (2::int) ^ nat (bitlen p)" by simp
    from bitlen_bounds[OF q] have lq: "(2::int) ^ nat (bitlen q - 1) \<le> q" by simp
    from q have bq: "1 \<le> bitlen q" by (auto simp: bitlen_alt_def)
    have bp: "0 \<le> bitlen p" by (rule bitlen_nonneg)
    from up have "(of_int p :: rat) < of_int ((2::int) ^ nat (bitlen p))"
      by (simp only: of_int_less_iff)
    then have "(of_int p :: rat) < 2 ^ nat (bitlen p)" by simp
    moreover have "(2::rat) powi bitlen p = 2 ^ nat (bitlen p)"
      using bp by (simp add: power_int_def)
    ultimately have up': "of_int p < (2::rat) powi bitlen p" by simp
    from lq have "(of_int ((2::int) ^ nat (bitlen q - 1)) :: rat) \<le> of_int q"
      by (simp only: of_int_le_iff)
    then have "(2::rat) ^ nat (bitlen q - 1) \<le> of_int q" by simp
    moreover have "(2::rat) powi (bitlen q - 1) = 2 ^ nat (bitlen q - 1)"
      using bq by (simp add: power_int_def)
    ultimately have lq': "(2::rat) powi (bitlen q - 1) \<le> of_int q" by simp
    have "of_int p / of_int q < (2::rat) powi bitlen p / of_int q"
      using up' q by (simp add: divide_strict_right_mono)
    also have "\<dots> \<le> 2 powi bitlen p / 2 powi (bitlen q - 1)"
      by (rule frac_le) (use lq' in simp_all)
    also have "\<dots> = 2 powi (?b + 1)"
      by (simp add: power_int_diff power_int_add)
    finally have "x < (2::rat) powi (?b + 1)" using x by simp
    with True show ?thesis by (simp add: binade_def pq Let_def)
  qed
qed









subsection \<open>Single prediction\<close>

text \<open>
  C1: every raw input of a single prediction is first normalised (trimmed, put in upper
  case, white space removed) and the normalised form is validated; the input
  \<^verbatim>\<open>"acdefghik"\<close> becomes \<^verbatim>\<open>"ACDEFGHIK"\<close>, is accepted, and the gateway is called with
  \<^verbatim>\<open>["ACDEFGHIK"]\<close>. \<^verbatim>\<open>predictSingle\<close> of the first copy validates the raw input: it
  rejects \<^verbatim>\<open>"acdefghik"\<close> with a bad-request error, spawns no process and leaves the
  state as it was. (The second copy does what the claim says:
  \<open>predictSingle_B_valid\<close>, \<open>predictSingle_B_invalid\<close>, \<open>predictSingle_B_example\<close> below.)
\<close>

theorem predictSingle_rejects_lower_case:
  "predictSingle w \<lparr>dto_sequence = ''acdefghik'', dto_model = None\<rparr> s =
     (Inl (BadRequestException ''Invalid peptide sequence. Only standard amino acids are allowed.''), s)"
  by (simp add: predictSingle_def isValidPeptideSequence_def validAminoAcids_def)

lemma sanitizeSequence_example: "sanitizeSequence ''acdefghik'' = ''ACDEFGHIK''"
  by code_simp

lemma predictSingle_B_valid:
  "isValidPeptideSequence_B (sanitizeSequence (dto_sequence dto)) \<Longrightarrow>
   spawned (snd (predictSingle_B w dto s)) =
     spawned s @ [([sanitizeSequence (dto_sequence dto)], case dto_model dto of None \<Rightarrow> ''ensemble'' | Some x \<Rightarrow> x)]"
  by (simp add: predictSingle_B_def pythonBridge_predict_def Let_def addPrediction_def
      split: prod.splits sum.splits list.splits)

lemma predictSingle_B_invalid:
  "\<not> isValidPeptideSequence_B (sanitizeSequence (dto_sequence dto)) \<Longrightarrow>
   predictSingle_B w dto s =
     (Inl (BadRequestException ''Invalid peptide sequence. Only standard amino acids are allowed.''), s)"
  by (simp add: predictSingle_B_def Let_def)

lemma predictSingle_B_example:
  "spawned (snd (predictSingle_B w \<lparr>dto_sequence = ''acdefghik'', dto_model = None\<rparr> s)) =
     spawned s @ [([''ACDEFGHIK''], ''ensemble'')]"
proof -
  have v: "isValidPeptideSequence_B ''ACDEFGHIK''" by code_simp
  show ?thesis
    using predictSingle_B_valid[of "\<lparr>dto_sequence = ''acdefghik'', dto_model = None\<rparr>" w s] v
    by (simp add: sanitizeSequence_example)
qed

text \<open>
  C9: \<^verbatim>\<open>predictSingle\<close> never changes the map \<^verbatim>\<open>predictions\<close>; so for every id, and in
  particular for the id of a single-prediction response, \<^verbatim>\<open>getPredictionById\<close>
  afterwards answers as it did before, and fails with \<^verbatim>\<open>Prediction not found\<close> unless
  a batch is stored under that id.
\<close>

theorem predictSingle_frame:
  "predictions (snd (predictSingle w dto s)) = predictions s
   \<and> getPredictionById i (snd (predictSingle w dto s)) = getPredictionById i s
   \<and> (predictions s i = None \<longrightarrow>
        getPredictionById i (snd (predictSingle w dto s)) = Inl (BadRequestException ''Prediction not found''))"
proof -
  have "predictions (snd (predictSingle w dto s)) = predictions s"
    by (simp add: predictSingle_def pythonBridge_predict_def Let_def addPrediction_def
        split: prod.splits sum.splits list.splits)
  then show ?thesis by (simp add: getPredictionById_def)
qed

theorem predictSingle_frame_witness:
  "predictions empty_service (generateId example_env) = None
   \<and> \<not> isl (fst (predictSingle example_env
                  \<lparr>dto_sequence = ''ACDEFGHIK'', dto_model = None\<rparr> empty_service))
   \<and> sp_id (projr (fst (predictSingle example_env
                  \<lparr>dto_sequence = ''ACDEFGHIK'', dto_model = None\<rparr> empty_service)))
       = generateId example_env
   \<and> getPredictionById (generateId example_env)
        (snd (predictSingle example_env
                \<lparr>dto_sequence = ''ACDEFGHIK'', dto_model = None\<rparr> empty_service))
       = Inl (BadRequestException ''Prediction not found'')"
proof -
  have a: "predictions empty_service (generateId example_env) = None"
    by (simp add: empty_service_def)
  have b: "predictSingle example_env \<lparr>dto_sequence = ''ACDEFGHIK'', dto_model = None\<rparr> empty_service
     = (Inr \<lparr>sp_id = generateId example_env, sp_sequence = ''ACDEFGHIK'', sp_model = ''ensemble'',
              sp_result = toxic_result, sp_timestamp = toISOString example_env\<rparr>,
        snd (predictSingle example_env \<lparr>dto_sequence = ''ACDEFGHIK'', dto_model = None\<rparr> empty_service))"
    by (simp add: predictSingle_def pythonBridge_predict_def Let_def example_env_def
        empty_service_def isValidPeptideSequence_def validAminoAcids_def settle_def
        addPrediction_def model_or_ensemble_def)
  from predictSingle_frame[of example_env "\<lparr>dto_sequence = ''ACDEFGHIK'', dto_model = None\<rparr>"
      empty_service "generateId example_env"] a
  have c: "getPredictionById (generateId example_env)
        (snd (predictSingle example_env
                \<lparr>dto_sequence = ''ACDEFGHIK'', dto_model = None\<rparr> empty_service))
       = Inl (BadRequestException ''Prediction not found'')"
    by blast
  have d: "\<not> isl (fst (predictSingle example_env
                  \<lparr>dto_sequence = ''ACDEFGHIK'', dto_model = None\<rparr> empty_service))"
    by (subst b) simp
  have e: "sp_id (projr (fst (predictSingle example_env
                  \<lparr>dto_sequence = ''ACDEFGHIK'', dto_model = None\<rparr> empty_service)))
       = generateId example_env"
    by (subst b) simp
  from a c d e show ?thesis by blast
qed

lemma predictSingle_B_frame: "predictions (snd (predictSingle_B w dto s)) = predictions s"
  by (simp add: predictSingle_B_def pythonBridge_predict_def Let_def addPrediction_def
        split: prod.splits sum.splits list.splits)

subsection \<open>Batch prediction\<close>

lemma predictBatch_database: "database (snd (predictBatch w dto s)) = database s"
  by (simp add: predictBatch_def pythonBridge_predict_def Let_def split: prod.splits sum.splits)

text \<open>
  C2: for every batch that passes validation, once the gateway has returned, one row
  per input sequence is written to the store; a successful batch writes at least one
  row. \<^verbatim>\<open>predictBatch\<close> of the first copy never calls the store
  (\<open>predictBatch_database\<close>): the batch of the one sequence \<^verbatim>\<open>"ACDEFGHIK"\<close> succeeds and
  the table is still empty. (The second copy writes one row per sequence, in the
  order in which the engine runs the insertions: \<open>predictBatch_B_persists\<close> below.)
\<close>

theorem predictBatch_writes_no_row:
  "\<not> isl (fst (predictBatch example_env \<lparr>dto_sequences = [''ACDEFGHIK''], dto_batch_model = None\<rparr> empty_service))
   \<and> predictions_table (database (snd (predictBatch example_env
         \<lparr>dto_sequences = [''ACDEFGHIK''], dto_batch_model = None\<rparr> empty_service))) = []"
  by (simp add: predictBatch_def pythonBridge_predict_def Let_def example_env_def empty_service_def
      empty_database_def isValidPeptideSequence_def validAminoAcids_def settle_def)

lemma length_insert_args: "length (insert_args m items) \<le> length items"
  by (induction items) (auto split: option.splits)

lemma scheduled_mset: "mset (map snd (scheduled w ds)) = mset ds"
proof -
  have "map snd (scheduled w ds) = map ((!) ds) (sort_key (insert_rank w) [0 ..< length ds])"
    by (simp add: scheduled_def comp_def)
  then have "mset (map snd (scheduled w ds))
           = image_mset ((!) ds) (mset (sort_key (insert_rank w) [0 ..< length ds]))"
    by simp
  also have "\<dots> = mset (map ((!) ds) [0 ..< length ds])"
    by simp
  also have "\<dots> = mset ds"
    by (simp only: map_nth)
  finally show ?thesis .
qed

lemma run_inserts_rows:
  "run_inserts w jobs db = (rs, db') \<Longrightarrow> first_rejection rs = None \<Longrightarrow>
   \<exists>rows. predictions_table db' = predictions_table db @ rows
          \<and> map row_sequence rows = map (\<lambda>j. data_sequence (snd j)) jobs"
proof (induction jobs arbitrary: db rs db')
  case Nil
  then show ?case by simp
next
  case (Cons j jobs)
  obtain k d where j: "j = (k, d)" by (cases j)
  obtain r db1 where a: "addPrediction (insert_fails w k) (CURRENT_TIMESTAMP w k) d db = (r, db1)"
    by (cases "addPrediction (insert_fails w k) (CURRENT_TIMESTAMP w k) d db")
  obtain rs1 db2 where b: "run_inserts w jobs db1 = (rs1, db2)"
    by (cases "run_inserts w jobs db1")
  from Cons.prems(1) j a b have eq: "rs = r # rs1" "db' = db2" by auto
  with Cons.prems(2) obtain i where r: "r = Inr i" and none: "first_rejection rs1 = None"
    by (cases r) auto
  from a r have ok: "\<not> insert_fails w k" by (auto simp: addPrediction_def split: if_splits)
  with a obtain row where t1: "predictions_table db1 = predictions_table db @ [row]"
      and s1: "row_sequence row = data_sequence d"
    by (auto simp: addPrediction_def Let_def)
  from Cons.IH[OF b none] obtain rows where
    t2: "predictions_table db2 = predictions_table db1 @ rows"
    and s2: "map row_sequence rows = map (\<lambda>j. data_sequence (snd j)) jobs" by blast
  have "predictions_table db' = predictions_table db @ (row # rows)"
    using t1 t2 eq by simp
  moreover have "map row_sequence (row # rows) = map (\<lambda>j. data_sequence (snd j)) (j # jobs)"
    using s1 s2 j by simp
  ultimately show ?case by blast
qed

lemma insert_args_all:
  "length (insert_args m items) = length items \<Longrightarrow>
   map data_sequence (insert_args m items) = map item_sequence items"
  by (induction items) (auto simp: new_prediction_of_def split: option.splits)

lemma map_item_sequence_zip:
  "map item_sequence
     (map (\<lambda>(seq, idx). \<lparr>item_sequence = seq, item_result = f idx\<rparr>) (zip xs [0 ..< length xs])) = xs"
proof -
  have "map item_sequence
     (map (\<lambda>(seq, idx). \<lparr>item_sequence = seq, item_result = f idx\<rparr>) (zip xs [0 ..< length xs]))
     = map fst (zip xs [0 ..< length xs])"
    by (simp add: comp_def case_prod_unfold)
  then show ?thesis by simp
qed

text \<open>
  A successful batch of the second copy adds one row per input sequence, holding the
  normalised sequences, in the order in which the insertions ran.
\<close>

lemma predictBatch_B_persists:
  assumes "predictBatch_B w dto s = (Inr b, s')"
  shows "\<exists>rows. predictions_table (database s') = predictions_table (database s) @ rows
           \<and> length rows = length (dto_sequences dto)
           \<and> mset (map row_sequence rows) = mset (map sanitizeSequence (dto_sequences dto))"
proof -
  let ?cleaned = "map sanitizeSequence (dto_sequences dto)"
  let ?m = "dto_batch_model dto"
  obtain g s1 where g: "pythonBridge_predict w ?cleaned ?m s = (g, s1)"
    by (cases "pythonBridge_predict w ?cleaned ?m s")
  then have s1: "database s1 = database s"
    by (auto simp: pythonBridge_predict_def Let_def)
  from assms g obtain results where res: "g = Inr results"
    by (cases g) (auto simp: predictBatch_B_def Let_def split: if_splits)
  let ?items = "map (\<lambda>(seq, idx). \<lparr>item_sequence = seq, item_result = nth_opt results idx\<rparr>)
                  (zip ?cleaned [0 ..< length ?cleaned])"
  let ?args = "insert_args ?m ?items"
  obtain outcomes db where ins: "run_inserts w (scheduled w ?args) (database s1) = (outcomes, db)"
    by (cases "run_inserts w (scheduled w ?args) (database s1)")
  from assms g res ins have len: "\<not> length ?args < length ?items"
    and none: "first_rejection outcomes = None"
    and db: "database s' = db"
    by (auto simp: predictBatch_B_def Let_def split: if_splits option.splits)
  from len length_insert_args[of ?m ?items] have "length ?args = length ?items"
    by linarith
  then have "map data_sequence ?args = map item_sequence ?items"
    by (rule insert_args_all)
  then have a: "map data_sequence ?args = ?cleaned"
    using map_item_sequence_zip[of "nth_opt results" ?cleaned] by simp
  from run_inserts_rows[OF ins none] obtain rows where
    t: "predictions_table db = predictions_table (database s1) @ rows"
    and r: "map row_sequence rows = map (\<lambda>j. data_sequence (snd j)) (scheduled w ?args)" by blast
  from r have "map row_sequence rows = map data_sequence (map snd (scheduled w ?args))"
    by (simp add: comp_def)
  then have "mset (map row_sequence rows) = mset (map data_sequence (map snd (scheduled w ?args)))"
    by (rule arg_cong)
  also have "\<dots> = image_mset data_sequence (mset (map snd (scheduled w ?args)))"
    by (rule mset_map)
  also have "\<dots> = image_mset data_sequence (mset ?args)"
    by (simp only: scheduled_mset)
  also have "\<dots> = mset (map data_sequence ?args)"
    by (rule mset_map[symmetric])
  finally have "mset (map row_sequence rows) = mset (map data_sequence ?args)" .
  then have ms: "mset (map row_sequence rows) = mset ?cleaned"
    by (simp only: a)
  then have "size (mset (map row_sequence rows)) = size (mset ?cleaned)"
    by simp
  then have "length rows = length (dto_sequences dto)"
    by simp
  with t ms s1 db show ?thesis by auto
qed

lemma sublist_join: "x \<in> set xs \<Longrightarrow> sublist x (join sep xs)"
proof (induction sep xs rule: join.induct)
  case (3 sep a b bs)
  show ?case
  proof (cases "x = a")
    case True
    then show ?thesis by simp
  next
    case False
    with 3 have "sublist x (join sep (b # bs))" by auto
    then obtain ps ss where "join sep (b # bs) = ps @ x @ ss" by (auto simp: sublist_def)
    then have "join sep (a # b # bs) = (a @ sep @ ps) @ x @ ss" by simp
    then show ?thesis unfolding sublist_def by blast
  qed
qed auto

text \<open>
  C4: a batch in which at least one sequence fails the validator is rejected as a
  whole with a bad-request error whose message names the offending inputs (it is
  \<^verbatim>\<open>Invalid sequences found: \<close> followed by exactly the failing inputs, joined by a
  comma and a space, so each of them occurs in it); the state is returned as it was:
  no process is spawned, no row is written and the map is unchanged.
\<close>

theorem predictBatch_rejects_invalid:
  assumes "\<not> list_all isValidPeptideSequence (dto_sequences dto)"
  shows "\<exists>msg. predictBatch w dto s = (Inl (BadRequestException msg), s)
           \<and> msg = ''Invalid sequences found: ''
                     @ join '', '' (filter (\<lambda>x. \<not> isValidPeptideSequence x) (dto_sequences dto))
           \<and> list_all (\<lambda>x. isValidPeptideSequence x \<or> sublist x msg) (dto_sequences dto)"
proof -
  let ?bad = "filter (\<lambda>x. \<not> isValidPeptideSequence x) (dto_sequences dto)"
  let ?msg = "''Invalid sequences found: '' @ join '', '' ?bad"
  from assms have ne: "?bad \<noteq> []"
    by (auto simp: list_all_iff filter_empty_conv)
  then have r: "predictBatch w dto s = (Inl (BadRequestException ?msg), s)"
    by (simp add: predictBatch_def Let_def)
  have "sublist x ?msg" if "x \<in> set (dto_sequences dto)" "\<not> isValidPeptideSequence x" for x
  proof -
    from that have "x \<in> set ?bad" by simp
    then have "sublist x (join '', '' ?bad)" by (rule sublist_join)
    then obtain ps ss where "join '', '' ?bad = ps @ x @ ss" by (auto simp: sublist_def)
    then have "?msg = (''Invalid sequences found: '' @ ps) @ x @ ss" by simp
    then show ?thesis unfolding sublist_def by blast
  qed
  then have "list_all (\<lambda>x. isValidPeptideSequence x \<or> sublist x ?msg) (dto_sequences dto)"
    by (auto simp: list_all_iff)
  with r show ?thesis by blast
qed

theorem predictBatch_rejects_invalid_witness:
  "\<not> list_all isValidPeptideSequence [''ACDEFGHIK'', ''ACDXFGHIK'', ''MKLPQRSTVWY'', ''acd'']
   \<and> predictBatch example_env
        \<lparr>dto_sequences = [''ACDEFGHIK'', ''ACDXFGHIK'', ''MKLPQRSTVWY'', ''acd''],
         dto_batch_model = None\<rparr> empty_service
      = (Inl (BadRequestException ''Invalid sequences found: ACDXFGHIK, acd''), empty_service)"
  using predictBatch_rejects_invalid[of
      "\<lparr>dto_sequences = [''ACDEFGHIK'', ''ACDXFGHIK'', ''MKLPQRSTVWY'', ''acd''],
        dto_batch_model = None\<rparr>" example_env empty_service]
  by (auto simp: isValidPeptideSequence_def validAminoAcids_def)

text \<open>The second copy rejects such a batch in the same way, naming the inputs as they were sent.\<close>

lemma zip_index_filter_map:
  "map (\<lambda>(y, i). g (xs ! i) y) (filter (\<lambda>(y, i). P y) (zip (map f xs) [0 ..< length xs]))
   = map (\<lambda>x. g x (f x)) (filter (\<lambda>x. P (f x)) xs)"
proof (induction xs rule: rev_induct)
  case Nil
  show ?case by simp
next
  case (snoc x xs)
  have "map (\<lambda>(y, i). g ((xs @ [x]) ! i) y) (filter (\<lambda>(y, i). P y) (zip (map f xs) [0 ..< length xs]))
      = map (\<lambda>(y, i). g (xs ! i) y) (filter (\<lambda>(y, i). P y) (zip (map f xs) [0 ..< length xs]))"
    by (rule map_cong) (auto simp: nth_append dest: set_zip_rightD)
  with snoc.IH show ?case by simp
qed

lemma sanitizeSequence_Nil: "sanitizeSequence [] = []"
  by (simp add: sanitizeSequence_def trim_def toUpperCase_def)

lemma predictBatch_B_rejects_invalid:
  assumes "\<not> list_all (\<lambda>x. isValidPeptideSequence_B (sanitizeSequence x)) (dto_sequences dto)"
  shows "predictBatch_B w dto s =
    (Inl (BadRequestException (''Invalid sequences found: '' @ join '', ''
       (filter (\<lambda>x. \<not> isValidPeptideSequence_B (sanitizeSequence x)) (dto_sequences dto)))), s)"
proof -
  let ?xs = "dto_sequences dto"
  let ?inv = "filter (\<lambda>(seq, idx). \<not> isValidPeptideSequence_B seq)
                (zip (map sanitizeSequence ?xs) [0 ..< length (map sanitizeSequence ?xs)])"
  have bad: "map (\<lambda>(seq, idx). if ?xs ! idx = [] then seq else ?xs ! idx) ?inv
      = map (\<lambda>x. if x = [] then sanitizeSequence x else x)
          (filter (\<lambda>x. \<not> isValidPeptideSequence_B (sanitizeSequence x)) ?xs)"
    using zip_index_filter_map[of "\<lambda>orig y. if orig = [] then y else orig" ?xs
        "\<lambda>y. \<not> isValidPeptideSequence_B y" sanitizeSequence]
    by simp
  have "map (\<lambda>x. if x = [] then sanitizeSequence x else x) ys = ys" for ys
    by (induction ys) (auto simp: sanitizeSequence_Nil)
  with bad have bad': "map (\<lambda>(seq, idx). if ?xs ! idx = [] then seq else ?xs ! idx) ?inv
      = filter (\<lambda>x. \<not> isValidPeptideSequence_B (sanitizeSequence x)) ?xs"
    by simp
  from assms have "filter (\<lambda>x. \<not> isValidPeptideSequence_B (sanitizeSequence x)) ?xs \<noteq> []"
    by (auto simp: list_all_iff filter_empty_conv)
  with bad' have "?inv \<noteq> []" by auto
  then show ?thesis
    using bad' by (simp add: predictBatch_B_def Let_def)
qed

text \<open>
  C6: for every successful batch response, \<^verbatim>\<open>toxic + nonToxic = total\<close> and \<^verbatim>\<open>total\<close> is
  the number of input sequences, provided the gateway returned exactly one result per
  input sequence, each labelled \<^verbatim>\<open>Toxic\<close> or \<^verbatim>\<open>Non-Toxic\<close>.
\<close>

theorem predictBatch_counts:
  assumes "predictBatch w dto s = (Inr b, s')"
    and "settle (JSON_parse w) (python3 w (dto_sequences dto)
           (case dto_batch_model dto of None \<Rightarrow> ''ensemble'' | Some x \<Rightarrow> x)) = Inr results"
    and "length results = length (dto_sequences dto)"
    and "list_all (\<lambda>r. res_prediction r = ''Toxic'' \<or> res_prediction r = ''Non-Toxic'') results"
  shows "toxic b + nonToxic b = total b \<and> total b = length (dto_sequences dto)"
proof -
  have split_count: "length (filter (\<lambda>r. res_prediction r = ''Toxic'') rs)
        + length (filter (\<lambda>r. res_prediction r = ''Non-Toxic'') rs) = length rs"
    if "list_all (\<lambda>r. res_prediction r = ''Toxic'' \<or> res_prediction r = ''Non-Toxic'') rs" for rs
    using that by (induction rs) auto
  from assms(1,2) have "total b = length (dto_sequences dto)"
    and "toxic b = length (filter (\<lambda>r. res_prediction r = ''Toxic'') results)"
    and "nonToxic b = length (filter (\<lambda>r. res_prediction r = ''Non-Toxic'') results)"
    by (auto simp: predictBatch_def pythonBridge_predict_def Let_def split: if_splits prod.splits sum.splits)
  with split_count[OF assms(4)] assms(3) show ?thesis by simp
qed

theorem predictBatch_counts_witness:
  "\<exists>b s'. predictBatch example_env \<lparr>dto_sequences = [''ACDEFGHIK''], dto_batch_model = None\<rparr>
             empty_service = (Inr b, s')
     \<and> settle (JSON_parse example_env) (python3 example_env [''ACDEFGHIK''] ''ensemble'')
         = Inr [toxic_result]
     \<and> length [toxic_result] = length [''ACDEFGHIK'']
     \<and> list_all (\<lambda>r. res_prediction r = ''Toxic'' \<or> res_prediction r = ''Non-Toxic'') [toxic_result]
     \<and> toxic b + nonToxic b = total b \<and> total b = 1"
proof -
  let ?dto = "\<lparr>dto_sequences = [''ACDEFGHIK''], dto_batch_model = None\<rparr>"
  let ?p = "predictBatch example_env ?dto empty_service"
  have "\<not> isl (fst ?p)"
    by (simp add: predictBatch_def pythonBridge_predict_def Let_def example_env_def
        empty_service_def isValidPeptideSequence_def validAminoAcids_def settle_def)
  then obtain b where "fst ?p = Inr b"
    by (cases "fst ?p") auto
  then have r: "?p = (Inr b, snd ?p)"
    by (simp add: prod_eq_iff)
  have g: "settle (JSON_parse example_env)
             (python3 example_env (dto_sequences ?dto)
                (case dto_batch_model ?dto of None \<Rightarrow> ''ensemble'' | Some x \<Rightarrow> x))
           = Inr [toxic_result]"
    by (simp add: example_env_def settle_def)
  have l: "length [toxic_result] = length (dto_sequences ?dto)"
    by simp
  have t: "list_all (\<lambda>r. res_prediction r = ''Toxic'' \<or> res_prediction r = ''Non-Toxic'')
             [toxic_result]"
    by (simp add: toxic_result_def)
  from predictBatch_counts[OF r g l t] have "toxic b + nonToxic b = total b \<and> total b = 1"
    by simp
  with r g t show ?thesis by auto
qed

subsection \<open>The gateway\<close>

lemma foldl_on_data:
  "foldl on_data (out, err) cs = (out @ captured_stdout cs, err @ captured_stderr cs)"
proof (induction cs arbitrary: out err)
  case Nil
  show ?case by (simp add: captured_stdout_def captured_stderr_def)
next
  case (Cons c cs)
  show ?case
    by (cases c) (simp_all add: Cons.IH captured_stdout_def captured_stderr_def)
qed

text \<open>
  C7: the gateway's \<^verbatim>\<open>predict\<close> collects the standard output and the standard error of
  the child process apart from each other, however their chunks interleave; when the
  process closes with a status other than zero it fails with an error that carries
  the collected standard error; when it closes with zero and the collected standard
  output does not parse it fails with another error, whose message differs from the
  first whatever the standard error was; and it succeeds, with the parsed value, only
  when the status is zero and the output parses. Parsing is \<^verbatim>\<open>JSON.parse\<close>: the
  gateway makes no further check of the shape of the value.
\<close>

theorem settle_outcomes:
  "foldl on_data ([], []) (chunks run) = (captured_stdout (chunks run), captured_stderr (chunks run))
   \<and> (exit_code run \<noteq> Some 0 \<longrightarrow>
        settle parse run = Inl (Error (''Python script failed: '' @ captured_stderr (chunks run))))
   \<and> (exit_code run = Some 0 \<and> parse (captured_stdout (chunks run)) = None \<longrightarrow>
        settle parse run = Inl (Error ''Failed to parse Python output''))
   \<and> ((\<exists>v. settle parse run = Inr v) \<longleftrightarrow>
        exit_code run = Some 0 \<and> parse (captured_stdout (chunks run)) \<noteq> None)
   \<and> (\<forall>v. settle parse run = Inr v \<longrightarrow> parse (captured_stdout (chunks run)) = Some v)
   \<and> ''Failed to parse Python output'' \<noteq> ''Python script failed: '' @ e"
  by (auto simp: settle_def foldl_on_data split: option.splits)

theorem settle_outcomes_witness:
  "settle (\<lambda>out. if out = ''[]'' then Some ([] :: nat list) else None)
     \<lparr>chunks = [Stdout ''par'', Stderr ''Trace'', Stdout ''tial'', Stderr ''back''], exit_code = Some 1\<rparr>
     = Inl (Error ''Python script failed: Traceback'')
   \<and> settle (\<lambda>out. if out = ''[]'' then Some ([] :: nat list) else None)
     \<lparr>chunks = [Stdout ''par'', Stderr ''warn'', Stdout ''tial''], exit_code = Some 0\<rparr>
     = Inl (Error ''Failed to parse Python output'')
   \<and> settle (\<lambda>out. if out = ''[]'' then Some ([] :: nat list) else None)
     \<lparr>chunks = [Stdout ''['', Stderr ''warn'', Stdout '']''], exit_code = Some 0\<rparr>
     = Inr []"
  using settle_outcomes[of "\<lparr>chunks = [Stdout ''par'', Stderr ''Trace'', Stdout ''tial'', Stderr ''back''], exit_code = Some 1\<rparr>"
          "\<lambda>out. if out = ''[]'' then Some ([] :: nat list) else None"]
        settle_outcomes[of "\<lparr>chunks = [Stdout ''par'', Stderr ''warn'', Stdout ''tial''], exit_code = Some 0\<rparr>"
          "\<lambda>out. if out = ''[]'' then Some ([] :: nat list) else None"]
        settle_outcomes[of "\<lparr>chunks = [Stdout ''['', Stderr ''warn'', Stdout '']''], exit_code = Some 0\<rparr>"
          "\<lambda>out. if out = ''[]'' then Some ([] :: nat list) else None"]
  by (auto simp: captured_stdout_def captured_stderr_def)

subsection \<open>The store\<close>

lemma store_ok_empty: "store_ok empty_database"
  by (simp add: store_ok_def empty_database_def)

lemma store_ok_addPrediction:
  "store_ok db \<Longrightarrow> store_ok (snd (addPrediction fails now d db))"
  by (auto simp: store_ok_def addPrediction_def Let_def sorted_wrt_append list_all_iff)

lemma store_ok_addPrediction_pair:
  "store_ok db \<Longrightarrow> addPrediction fails now d db = (r, db') \<Longrightarrow> store_ok db'"
  using store_ok_addPrediction[of db fails now d] by simp

lemma store_ok_run_inserts:
  "store_ok db \<Longrightarrow> run_inserts w jobs db = (rs, db') \<Longrightarrow> store_ok db'"
proof (induction jobs arbitrary: db rs db')
  case Nil
  then show ?case by simp
next
  case (Cons j jobs)
  obtain k d where j: "j = (k, d)" by (cases j)
  obtain r db1 where a: "addPrediction (insert_fails w k) (CURRENT_TIMESTAMP w k) d db = (r, db1)"
    by (cases "addPrediction (insert_fails w k) (CURRENT_TIMESTAMP w k) d db")
  obtain rs1 db2 where b: "run_inserts w jobs db1 = (rs1, db2)"
    by (cases "run_inserts w jobs db1")
  from Cons.prems(1) a have "store_ok db1"
    by (rule store_ok_addPrediction_pair)
  then have "store_ok db2" using b by (rule Cons.IH)
  with Cons.prems(2) j a b show ?case by simp
qed

lemma store_ok_predictSingle:
  "store_ok (database s) \<Longrightarrow> store_ok (database (snd (predictSingle w dto s)))"
  by (auto simp: predictSingle_def pythonBridge_predict_def Let_def
      split: prod.splits sum.splits list.splits dest: store_ok_addPrediction_pair)

lemma store_ok_predictSingle_B:
  "store_ok (database s) \<Longrightarrow> store_ok (database (snd (predictSingle_B w dto s)))"
  by (auto simp: predictSingle_B_def pythonBridge_predict_def Let_def
      split: prod.splits sum.splits list.splits dest: store_ok_addPrediction_pair)

lemma store_ok_predictBatch_B:
  "store_ok (database s) \<Longrightarrow> store_ok (database (snd (predictBatch_B w dto s)))"
  by (auto simp: predictBatch_B_def pythonBridge_predict_def Let_def
      split: prod.splits sum.splits list.splits option.splits dest: store_ok_run_inserts)

text \<open>
  No service stores a sequence with a lower-case letter: a sequence is stored only after
  the validator has accepted it.
\<close>

lemma valid_no_lower_case: "isValidPeptideSequence s \<Longrightarrow> no_lower_case s"
proof -
  have "\<not> (97 \<le> (of_char c :: nat) \<and> (of_char c :: nat) \<le> 122)" if "c \<in> set validAminoAcids" for c
    using that unfolding validAminoAcids_def by auto
  then show "isValidPeptideSequence s \<Longrightarrow> no_lower_case s"
    by (auto simp: isValidPeptideSequence_iff no_lower_case_def list_all_iff)
qed

lemma valid_B_no_lower_case: "isValidPeptideSequence_B s \<Longrightarrow> no_lower_case s"
  using valid_no_lower_case[of s]
  by (simp add: isValidPeptideSequence_B_iff isValidPeptideSequence_iff)

lemma upper_addPrediction:
  "list_all (\<lambda>r. no_lower_case (row_sequence r)) (predictions_table db) \<Longrightarrow>
   no_lower_case (data_sequence d) \<Longrightarrow>
   addPrediction fails now d db = (r, db') \<Longrightarrow>
   list_all (\<lambda>r. no_lower_case (row_sequence r)) (predictions_table db')"
  by (auto simp: addPrediction_def Let_def split: if_splits)

lemma upper_run_inserts:
  "list_all (\<lambda>r. no_lower_case (row_sequence r)) (predictions_table db) \<Longrightarrow>
   list_all (\<lambda>j. no_lower_case (data_sequence (snd j))) jobs \<Longrightarrow>
   run_inserts w jobs db = (rs, db') \<Longrightarrow>
   list_all (\<lambda>r. no_lower_case (row_sequence r)) (predictions_table db')"
proof (induction jobs arbitrary: db rs db')
  case Nil
  then show ?case by simp
next
  case (Cons j jobs)
  obtain k d where j: "j = (k, d)" by (cases j)
  obtain r db1 where a: "addPrediction (insert_fails w k) (CURRENT_TIMESTAMP w k) d db = (r, db1)"
    by (cases "addPrediction (insert_fails w k) (CURRENT_TIMESTAMP w k) d db")
  obtain rs1 db2 where b: "run_inserts w jobs db1 = (rs1, db2)"
    by (cases "run_inserts w jobs db1")
  from Cons.prems(1,2) a j have "list_all (\<lambda>r. no_lower_case (row_sequence r)) (predictions_table db1)"
    by (auto intro: upper_addPrediction)
  moreover from Cons.prems(2) have "list_all (\<lambda>j. no_lower_case (data_sequence (snd j))) jobs"
    by simp
  ultimately have "list_all (\<lambda>r. no_lower_case (row_sequence r)) (predictions_table db2)"
    using b by (rule Cons.IH)
  with Cons.prems(3) j a b show ?case by simp
qed

lemma upper_predictSingle:
  "list_all (\<lambda>r. no_lower_case (row_sequence r)) (predictions_table (database s)) \<Longrightarrow>
   list_all (\<lambda>r. no_lower_case (row_sequence r))
     (predictions_table (database (snd (predictSingle w dto s))))"
  by (auto simp: predictSingle_def pythonBridge_predict_def Let_def new_prediction_of_def
      split: prod.splits sum.splits list.splits
      dest!: valid_no_lower_case elim!: upper_addPrediction[rotated 2])

lemma upper_predictSingle_B:
  "list_all (\<lambda>r. no_lower_case (row_sequence r)) (predictions_table (database s)) \<Longrightarrow>
   list_all (\<lambda>r. no_lower_case (row_sequence r))
     (predictions_table (database (snd (predictSingle_B w dto s))))"
  by (auto simp: predictSingle_B_def pythonBridge_predict_def Let_def new_prediction_of_def
      split: prod.splits sum.splits list.splits
      dest!: valid_B_no_lower_case elim!: upper_addPrediction[rotated 2])

lemma insert_args_sequences:
  "list_all (\<lambda>p. P (item_sequence p)) items \<Longrightarrow>
   list_all (\<lambda>d. P (data_sequence d)) (insert_args m items)"
  by (induction items) (auto simp: new_prediction_of_def split: option.splits)

lemma predictBatch_B_database:
  "(\<exists>jobs rs.
      list_all (\<lambda>j. \<exists>x \<in> set (dto_sequences dto). data_sequence (snd j) = sanitizeSequence x) jobs
      \<and> run_inserts w jobs (database s) = (rs, database (snd (predictBatch_B w dto s))))
   \<or> database (snd (predictBatch_B w dto s)) = database s"
proof -
  let ?cleaned = "map sanitizeSequence (dto_sequences dto)"
  let ?m = "dto_batch_model dto"
  obtain g s1 where g: "pythonBridge_predict w ?cleaned ?m s = (g, s1)"
    by (cases "pythonBridge_predict w ?cleaned ?m s")
  then have s1: "database s1 = database s"
    by (auto simp: pythonBridge_predict_def Let_def)
  show ?thesis
  proof (cases g)
    case (Inl e)
    with g s1 have "database (snd (predictBatch_B w dto s)) = database s"
      by (simp add: predictBatch_B_def Let_def)
    then show ?thesis by blast
  next
    case (Inr results)
    let ?items = "map (\<lambda>(seq, idx). \<lparr>item_sequence = seq, item_result = nth_opt results idx\<rparr>)
                    (zip ?cleaned [0 ..< length ?cleaned])"
    let ?args = "insert_args ?m ?items"
    let ?jobs = "scheduled w ?args"
    obtain outcomes db where ins: "run_inserts w ?jobs (database s1) = (outcomes, db)"
      by (cases "run_inserts w ?jobs (database s1)")
    have "list_all (\<lambda>p. \<exists>x \<in> set (dto_sequences dto). item_sequence p = sanitizeSequence x) ?items"
      by (auto simp: list_all_iff dest!: set_zip_leftD)
    then have "list_all (\<lambda>d. \<exists>x \<in> set (dto_sequences dto). data_sequence d = sanitizeSequence x) ?args"
      by (rule insert_args_sequences)
    moreover have "set (map snd ?jobs) = set ?args"
      using scheduled_mset[of w ?args] by (rule mset_eq_setD)
    ultimately have a: "list_all (\<lambda>j. \<exists>x \<in> set (dto_sequences dto).
                            data_sequence (snd j) = sanitizeSequence x) ?jobs"
      unfolding list_all_iff by auto
    from g Inr ins s1 have "database (snd (predictBatch_B w dto s)) = db
        \<or> database (snd (predictBatch_B w dto s)) = database s"
      by (auto simp: predictBatch_B_def Let_def split: option.splits)
    with a ins s1 show ?thesis by auto
  qed
qed

lemma upper_predictBatch_B:
  assumes "list_all (\<lambda>r. no_lower_case (row_sequence r)) (predictions_table (database s))"
  shows "list_all (\<lambda>r. no_lower_case (row_sequence r))
     (predictions_table (database (snd (predictBatch_B w dto s))))"
proof (cases "list_all (\<lambda>x. isValidPeptideSequence_B (sanitizeSequence x)) (dto_sequences dto)")
  case False
  then show ?thesis using assms by (simp add: predictBatch_B_rejects_invalid)
next
  case True
  from predictBatch_B_database[of dto w s] show ?thesis
  proof
    assume "database (snd (predictBatch_B w dto s)) = database s"
    with assms show ?thesis by simp
  next
    assume "\<exists>jobs rs.
      list_all (\<lambda>j. \<exists>x \<in> set (dto_sequences dto). data_sequence (snd j) = sanitizeSequence x) jobs
      \<and> run_inserts w jobs (database s) = (rs, database (snd (predictBatch_B w dto s)))"
    then obtain jobs rs where
      ds: "list_all (\<lambda>j. \<exists>x \<in> set (dto_sequences dto). data_sequence (snd j) = sanitizeSequence x) jobs"
      and r: "run_inserts w jobs (database s) = (rs, database (snd (predictBatch_B w dto s)))"
      by blast
    from ds True have "list_all (\<lambda>j. no_lower_case (data_sequence (snd j))) jobs"
      unfolding list_all_iff by (metis valid_B_no_lower_case)
    with assms show ?thesis using r by (rule upper_run_inserts)
  qed
qed

lemma example_database_rows:
  "example_database =
    \<lparr>predictions_table =
       [\<lparr>row_id = 1, row_sequence = ''ACDEFGHIK'', row_model = ''ensemble'', row_prediction = ''Toxic'',
         row_confidence = 9 / 10, row_toxic_probability = 9 / 10, row_non_toxic_probability = 1 / 10,
         row_created_at = 200\<rparr>,
        \<lparr>row_id = 2, row_sequence = ''ACEFGHIK'', row_model = ''ensemble'', row_prediction = ''Toxic'',
         row_confidence = 9 / 10, row_toxic_probability = 9 / 10, row_non_toxic_probability = 1 / 10,
         row_created_at = 300\<rparr>,
        \<lparr>row_id = 3, row_sequence = ''MKLPQRSTVWY'', row_model = ''ensemble'', row_prediction = ''Toxic'',
         row_confidence = 9 / 10, row_toxic_probability = 9 / 10, row_non_toxic_probability = 1 / 10,
         row_created_at = 100\<rparr>],
     sqlite_sequence = 3\<rparr>"
  by (simp add: example_database_def addPrediction_def empty_database_def new_prediction_of_def
      toxic_result_def model_or_ensemble_def Let_def numeral_3_eq_3 numeral_2_eq_2)

lemma order_by_desc_increasing:
  assumes "sorted_wrt (\<lambda>a b. key a < key b) xs"
  shows "order_by_desc key xs = rev xs"
  unfolding order_by_desc_def
proof (rule properties_for_sort_key)
  show "mset (rev xs) = mset xs" by simp
next
  from assms have "sorted_wrt (\<lambda>a b. - int (key b) \<le> - int (key a)) xs"
    by (rule sorted_wrt_mono_rel[rotated]) auto
  then show "sorted (map (\<lambda>r. - int (key r)) (rev xs))"
    by (simp add: sorted_wrt_rev sorted_wrt_map rev_map[symmetric])
next
  fix k assume "k \<in> set (rev xs)"
  from assms have "length (filter (\<lambda>x. - int (key k) = - int (key x)) xs) \<le> 1"
  proof (induction xs)
    case Nil
    then show ?case by simp
  next
    case (Cons a xs)
    show ?case
    proof (cases "key k = key a")
      case True
      with Cons.prems have "filter (\<lambda>x. - int (key k) = - int (key x)) xs = []"
        by (auto simp: filter_empty_conv)
      with True show ?thesis by simp
    next
      case False
      with Cons show ?thesis by simp
    qed
  qed
  then have "rev (filter (\<lambda>x. - int (key k) = - int (key x)) xs)
           = filter (\<lambda>x. - int (key k) = - int (key x)) xs"
    by (cases "filter (\<lambda>x. - int (key k) = - int (key x)) xs" rule: list.exhaust)
       (auto simp: Suc_le_eq)
  then show "filter (\<lambda>x. - int (key k) = - int (key x)) (rev xs)
           = filter (\<lambda>x. - int (key k) = - int (key x)) xs"
    by (simp add: rev_filter[symmetric])
qed

text \<open>
  C8: for every row count \<open>n\<close>, \<^verbatim>\<open>getRecentPredictions(n)\<close> returns at most \<open>n\<close> rows, the
  most recently inserted first: it returns the last \<open>n\<close> rows of the table in the
  reverse of their insertion order, which is the order of strictly decreasing id.
\<close>

theorem getRecentPredictions_order:
  assumes "store_ok db"
  shows "length (getRecentPredictions (Some n) db) \<le> n
       \<and> getRecentPredictions (Some n) db = take n (rev (predictions_table db))
       \<and> sorted_wrt (\<lambda>a b. row_id b < row_id a) (getRecentPredictions (Some n) db)"
proof -
  from assms have inc: "sorted_wrt (\<lambda>a b. row_id a < row_id b) (predictions_table db)"
    by (simp add: store_ok_def)
  then have eq: "getRecentPredictions (Some n) db = take n (rev (predictions_table db))"
    by (simp add: getRecentPredictions_def order_by_desc_increasing)
  from inc have "sorted_wrt (\<lambda>a b. row_id b < row_id a) (rev (predictions_table db))"
    by (simp add: sorted_wrt_rev)
  then have "sorted_wrt (\<lambda>a b. row_id b < row_id a) (take n (rev (predictions_table db)))"
    by (rule sorted_wrt_take)
  with eq show ?thesis by simp
qed

theorem getRecentPredictions_order_witness:
  "store_ok example_database
   \<and> map row_id (getRecentPredictions (Some 2) example_database) = [3, 2]"
proof -
  have ok: "store_ok example_database"
    unfolding example_database_def by (intro store_ok_addPrediction store_ok_empty)
  from getRecentPredictions_order[OF ok, of 2]
  have "getRecentPredictions (Some 2) example_database = take 2 (rev (predictions_table example_database))"
    by blast
  then have "map row_id (getRecentPredictions (Some 2) example_database) = [3, 2]"
    by (simp add: example_database_rows)
  with ok show ?thesis by blast
qed














end
